theory Spec2Isabelle
  imports Complex_Main
begin

section \<open>GeodePy statistics: a shallow embedding of \<^verbatim>\<open>geodepy/statistics.py\<close>\<close>

text \<open>
  The module is numerical Python. Exceptions are values: a call returns \<open>Inl e\<close> when the
  source raises \<open>e\<close> and \<open>Inr v\<close> when it returns \<open>v\<close>. Numbers are modelled at the level
  each function needs.
  \<^item> The frame conversions multiply matrices and never branch on a number; they are modelled
    in exact real arithmetic.
  \<^item> \<^verbatim>\<open>error_ellipse\<close> raises or returns according to the sign of a computed radicand,
    so its arithmetic is double arithmetic: every operation is the exact result rounded to
    the nearest number with a 53-bit significand, ties to even. The exponent range is
    unbounded: overflow, underflow, signed zeros, infinities and NaN are outside the model.
  \<^item> \<^verbatim>\<open>circ_hz_pu\<close> raises or returns according to the class of its arguments, built-in
    \<^verbatim>\<open>float\<close> or \<^verbatim>\<open>numpy.float64\<close>, so its numbers carry their class and may be infinite
    or NaN; finite values are computed exactly.
  Decimal literals of the source are the rationals they denote.
\<close>

subsection \<open>Exceptions\<close>

datatype py_error =
    NameError string
  | IndexError string
  | ValueError string
  | ZeroDivisionError string
  | TypeError string

definition bind_err :: "py_error + 'a \<Rightarrow> ('a \<Rightarrow> py_error + 'b) \<Rightarrow> py_error + 'b" where
  "bind_err r f = (case r of Inl e \<Rightarrow> Inl e | Inr v \<Rightarrow> f v)"

subsection \<open>Double arithmetic\<close>

text \<open>
  \<open>pow2 k\<close> is \<open>2\<^sup>k\<close>, \<open>rhe\<close> rounds a real to the nearest integer, a tie to the even one,
  and \<open>fl x\<close> is the double nearest to \<open>x\<close>: with \<open>2\<^sup>e \<le> |x| < 2\<^sup>e\<^sup>+\<^sup>1\<close> it is a multiple of
  \<open>2\<^sup>e\<^sup>-\<^sup>5\<^sup>2\<close>. \<open>fadd\<close>, \<open>fsub\<close> and \<open>fmul\<close> are \<^verbatim>\<open>+\<close>, \<^verbatim>\<open>-\<close> and \<^verbatim>\<open>*\<close> on doubles.
\<close>

definition pow2 :: "int \<Rightarrow> real" where
  "pow2 k = (if 0 \<le> k then 2 ^ nat k else 1 / 2 ^ nat (- k))"

definition rhe :: "real \<Rightarrow> int" where
  "rhe y = (let n = \<lfloor>y\<rfloor>; f = y - of_int n in
            if f < 1 / 2 then n else if 1 / 2 < f then n + 1
            else if even n then n else n + 1)"

definition fl :: "real \<Rightarrow> real" where
  "fl x = (if x = 0 then 0
           else let u = pow2 (\<lfloor>log 2 \<bar>x\<bar>\<rfloor> - 52)
                in sgn x * (u * of_int (rhe (\<bar>x\<bar> / u))))"

definition fadd :: "real \<Rightarrow> real \<Rightarrow> real" where
  "fadd x y = fl (x + y)"

definition fsub :: "real \<Rightarrow> real \<Rightarrow> real" where
  "fsub x y = fl (x - y)"

definition fmul :: "real \<Rightarrow> real \<Rightarrow> real" where
  "fmul x y = fl (x * y)"

subsection \<open>The functions taken from \<^verbatim>\<open>math\<close>\<close>

text \<open>
  The module imports \<^verbatim>\<open>radians, sin, cos, sqrt, atan2, degrees\<close> from \<^verbatim>\<open>math\<close>
  and \<^verbatim>\<open>numpy\<close> as \<^verbatim>\<open>np\<close>; it imports nothing else. \<open>atan2 y x\<close> is the exact
  angle of the point \<open>(x, y)\<close>, in \<open>(-\<pi>, \<pi>]\<close> and 0 at the origin. In double arithmetic,
  \<^verbatim>\<open>math.pi\<close> is the double nearest to \<open>\<pi>\<close>; \<^verbatim>\<open>math.sqrt\<close> raises
  \<^verbatim>\<open>ValueError('math domain error')\<close> on a negative argument and returns the rounded
  root otherwise; \<^verbatim>\<open>math.atan2\<close> returns the rounded angle; \<^verbatim>\<open>math.degrees(x)\<close> is
  \<^verbatim>\<open>x * (180.0 / pi)\<close>.
\<close>

definition radians :: "real \<Rightarrow> real" where
  "radians d = d * pi / 180"

definition atan2 :: "real \<Rightarrow> real \<Rightarrow> real" where
  "atan2 y x =
     (if 0 < x then arctan (y / x)
      else if x < 0 then (if 0 \<le> y then arctan (y / x) + pi else arctan (y / x) - pi)
      else if 0 < y then pi / 2
      else if y < 0 then - (pi / 2)
      else 0)"

definition math_pi :: real where
  "math_pi = fl pi"

definition radToDeg :: real where
  "radToDeg = fl (180 / math_pi)"

definition math_sqrt :: "real \<Rightarrow> py_error + real" where
  "math_sqrt x = (if x < 0 then Inl (ValueError ''math domain error'') else Inr (fl (sqrt x)))"

definition math_atan2 :: "real \<Rightarrow> real \<Rightarrow> real" where
  "math_atan2 y x = fl (atan2 y x)"

definition math_degrees :: "real \<Rightarrow> real" where
  "math_degrees x = fmul x radToDeg"

subsection \<open>Two-dimensional arrays\<close>

text \<open>
  A two-dimensional \<^verbatim>\<open>numpy\<close> array is the list of its rows. \<open>shape0\<close> is
  \<^verbatim>\<open>a.shape[0]\<close> and \<open>shape1\<close> is \<^verbatim>\<open>a.shape[1]\<close>, which the source reads only
  after it has found three rows. \<open>getitem a i j\<close> is \<^verbatim>\<open>a[i, j]\<close> for the
  non-negative literal indices the source uses; an index outside the array raises
  \<^verbatim>\<open>IndexError\<close>.
\<close>

type_synonym ndarray = "real list list"

definition shape0 :: "ndarray \<Rightarrow> nat" where
  "shape0 a = length a"

definition shape1 :: "ndarray \<Rightarrow> nat" where
  "shape1 a = (case a of [] \<Rightarrow> 0 | r # _ \<Rightarrow> length r)"

definition has_shape :: "ndarray \<Rightarrow> nat \<Rightarrow> nat \<Rightarrow> bool" where
  "has_shape a n k = (length a = n \<and> list_all (\<lambda>r. length r = k) a)"

definition getitem :: "ndarray \<Rightarrow> nat \<Rightarrow> nat \<Rightarrow> py_error + real" where
  "getitem a i j =
     (if i < length a \<and> j < length (a ! i) then Inr (a ! i ! j)
      else Inl (IndexError ''index is out of bounds''))"

definition column :: "ndarray \<Rightarrow> nat \<Rightarrow> real list" where
  "column a j = map (\<lambda>r. r ! j) a"

definition transpose_nd :: "ndarray \<Rightarrow> ndarray" where
  "transpose_nd a = map (column a) [0 ..< shape1 a]"

definition dot :: "real list \<Rightarrow> real list \<Rightarrow> real" where
  "dot u v = sum_list (map2 (*) u v)"

definition matmul :: "ndarray \<Rightarrow> ndarray \<Rightarrow> ndarray" where
  "matmul a b = map (\<lambda>r. map (\<lambda>j. dot r (column b j)) [0 ..< shape1 b]) a"

subsection \<open>The source functions\<close>

definition rotation_matrix :: "real \<Rightarrow> real \<Rightarrow> ndarray" where
  "rotation_matrix lat lon =
     (let rlat = radians lat; rlon = radians lon in
      [[- sin rlon, - sin rlat * cos rlon, cos rlat * cos rlon],
       [cos rlon, - sin rlat * sin rlon, cos rlat * sin rlon],
       [0, cos rlat, sin rlat]])"

text \<open>
  \<^verbatim>\<open>sys.exit('Matrix must be either 3x1 or 3x3')\<close>: the module never imports
  \<^verbatim>\<open>sys\<close>, so evaluating the name raises \<^verbatim>\<open>NameError\<close> before any exit happens.
\<close>

definition sys_exit :: "string \<Rightarrow> py_error + 'a" where
  "sys_exit msg = Inl (NameError ''name 'sys' is not defined'')"

definition vcv_cart2local :: "ndarray \<Rightarrow> real \<Rightarrow> real \<Rightarrow> py_error + ndarray" where
  "vcv_cart2local vcv_cart lat lon =
     bind_err
       (if shape0 vcv_cart = 3 then
          (if shape1 vcv_cart = 1 then
             bind_err (getitem vcv_cart 0 0) (\<lambda>v0.
             bind_err (getitem vcv_cart 1 0) (\<lambda>v1.
             bind_err (getitem vcv_cart 2 0) (\<lambda>v2.
               Inr [[v0, 0, 0], [0, v1, 0], [0, 0, v2]])))
           else if shape1 vcv_cart = 3 then Inr vcv_cart
           else sys_exit ''Matrix must be either 3x1 or 3x3'')
        else sys_exit ''Matrix must be either 3x1 or 3x3'')
       (\<lambda>vcv_cart.
          let rot_matrix = rotation_matrix lat lon;
              vcv_local = matmul (matmul (transpose_nd rot_matrix) vcv_cart) rot_matrix
          in Inr vcv_local)"

definition vcv_local2cart :: "ndarray \<Rightarrow> real \<Rightarrow> real \<Rightarrow> py_error + ndarray" where
  "vcv_local2cart vcv_local lat lon =
     bind_err
       (if shape0 vcv_local = 3 then
          (if shape1 vcv_local = 1 then
             bind_err (getitem vcv_local 0 0) (\<lambda>v0.
             bind_err (getitem vcv_local 1 0) (\<lambda>v1.
             bind_err (getitem vcv_local 2 0) (\<lambda>v2.
               Inr [[v0, 0, 0], [0, v1, 0], [0, 0, v2]])))
           else if shape1 vcv_local = 3 then Inr vcv_local
           else sys_exit ''Matrix must be either 3x1 or 3x3'')
        else sys_exit ''Matrix must be either 3x1 or 3x3'')
       (\<lambda>vcv_local.
          let rot_matrix = rotation_matrix lat lon;
              vcv_cart = matmul (matmul rot_matrix vcv_local) (transpose_nd rot_matrix)
          in Inr vcv_cart)"
text \<open>
  \<^verbatim>\<open>error_ellipse\<close> in double arithmetic. The entries are read once: reading an array
  has no effect, so the later reads of the source return the same values. \<^verbatim>\<open>x**2\<close> is the
  rounded product \<^verbatim>\<open>x * x\<close>; the concrete inputs below have exact squares, which no
  rounding of the power can change.
\<close>

definition error_ellipse :: "ndarray \<Rightarrow> py_error + real \<times> real \<times> real" where
  "error_ellipse vcv =
     bind_err (getitem vcv 0 0) (\<lambda>v00.
     bind_err (getitem vcv 1 1) (\<lambda>v11.
     bind_err (getitem vcv 0 1) (\<lambda>v01.
     bind_err (math_sqrt (fadd (fmul (fsub v00 v11) (fsub v00 v11)) (fmul 4 (fmul v01 v01)))) (\<lambda>z.
     bind_err (math_sqrt (fmul 0.5 (fadd (fadd v00 v11) z))) (\<lambda>a.
     bind_err (math_sqrt (fmul 0.5 (fsub (fadd v00 v11) z))) (\<lambda>b.
       let orientation = fsub 90 (math_degrees (fmul 0.5 (math_atan2 (fmul 2 v01) (fsub v00 v11))))
       in Inr (a, b, orientation)))))))"

text \<open>
  The arguments of \<^verbatim>\<open>circ_hz_pu\<close> are floats of either class: a built-in \<^verbatim>\<open>float\<close>
  (what \<^verbatim>\<open>math.sqrt\<close> returns, so what \<^verbatim>\<open>error_ellipse\<close> returns) or a
  \<^verbatim>\<open>numpy.float64\<close> (an element of an array). An operation with a \<^verbatim>\<open>numpy.float64\<close>
  operand is numpy's and follows IEEE 754: it returns an infinity or NaN where the built-in
  division raises \<^verbatim>\<open>ZeroDivisionError\<close>. \<^verbatim>\<open>numpy.float64\<close> is a subclass of
  \<^verbatim>\<open>float\<close> that defines the reflected operators, so numpy's operation is used whichever
  side its operand is on, and the result is a \<^verbatim>\<open>numpy.float64\<close>.
\<close>

datatype float_class = Builtin | Numpy

datatype float_value = Finite real | PosInf | NegInf | NaN

type_synonym py_float = "float_class \<times> float_value"

fun join_class :: "float_class \<Rightarrow> float_class \<Rightarrow> float_class" where
  "join_class Builtin Builtin = Builtin"
| "join_class _ _ = Numpy"

fun ieee_add :: "float_value \<Rightarrow> float_value \<Rightarrow> float_value" where
  "ieee_add (Finite x) (Finite y) = Finite (x + y)"
| "ieee_add NaN _ = NaN"
| "ieee_add _ NaN = NaN"
| "ieee_add PosInf NegInf = NaN"
| "ieee_add NegInf PosInf = NaN"
| "ieee_add PosInf _ = PosInf"
| "ieee_add NegInf _ = NegInf"
| "ieee_add _ PosInf = PosInf"
| "ieee_add _ NegInf = NegInf"

fun ieee_mul :: "float_value \<Rightarrow> float_value \<Rightarrow> float_value" where
  "ieee_mul (Finite x) (Finite y) = Finite (x * y)"
| "ieee_mul NaN _ = NaN"
| "ieee_mul _ NaN = NaN"
| "ieee_mul (Finite x) PosInf = (if x = 0 then NaN else if 0 < x then PosInf else NegInf)"
| "ieee_mul (Finite x) NegInf = (if x = 0 then NaN else if 0 < x then NegInf else PosInf)"
| "ieee_mul PosInf (Finite y) = (if y = 0 then NaN else if 0 < y then PosInf else NegInf)"
| "ieee_mul NegInf (Finite y) = (if y = 0 then NaN else if 0 < y then NegInf else PosInf)"
| "ieee_mul PosInf PosInf = PosInf"
| "ieee_mul NegInf NegInf = PosInf"
| "ieee_mul PosInf NegInf = NegInf"
| "ieee_mul NegInf PosInf = NegInf"

fun ieee_div :: "float_value \<Rightarrow> float_value \<Rightarrow> float_value" where
  "ieee_div (Finite x) (Finite y) =
     (if y = 0 then (if x = 0 then NaN else if 0 < x then PosInf else NegInf)
      else Finite (x / y))"
| "ieee_div NaN _ = NaN"
| "ieee_div _ NaN = NaN"
| "ieee_div (Finite x) _ = Finite 0"
| "ieee_div PosInf (Finite y) = (if 0 \<le> y then PosInf else NegInf)"
| "ieee_div NegInf (Finite y) = (if 0 \<le> y then NegInf else PosInf)"
| "ieee_div _ _ = NaN"

fun ieee_pow :: "float_value \<Rightarrow> nat \<Rightarrow> float_value" where
  "ieee_pow (Finite x) n = Finite (x ^ n)"
| "ieee_pow NaN n = (if n = 0 then Finite 1 else NaN)"
| "ieee_pow PosInf n = (if n = 0 then Finite 1 else PosInf)"
| "ieee_pow NegInf n = (if n = 0 then Finite 1 else if even n then PosInf else NegInf)"

definition py_add :: "py_float \<Rightarrow> py_float \<Rightarrow> py_float" where
  "py_add x y = (join_class (fst x) (fst y), ieee_add (snd x) (snd y))"

definition py_mul :: "py_float \<Rightarrow> py_float \<Rightarrow> py_float" where
  "py_mul x y = (join_class (fst x) (fst y), ieee_mul (snd x) (snd y))"

definition py_pow :: "py_float \<Rightarrow> nat \<Rightarrow> py_float" where
  "py_pow x n = (fst x, ieee_pow (snd x) n)"

definition py_truediv :: "py_float \<Rightarrow> py_float \<Rightarrow> py_error + py_float" where
  "py_truediv x y =
     (if fst x = Builtin \<and> fst y = Builtin \<and> snd y = Finite 0
      then Inl (ZeroDivisionError ''float division by zero'')
      else Inr (join_class (fst x) (fst y), ieee_div (snd x) (snd y)))"

definition circ_hz_pu :: "py_float \<Rightarrow> py_float \<Rightarrow> py_error + py_float" where
  "circ_hz_pu a b =
     (let q0 = (Builtin, Finite 1.960790); q1 = (Builtin, Finite 0.004071);
          q2 = (Builtin, Finite 0.114276); q3 = (Builtin, Finite 0.371625) in
      bind_err (py_truediv b a) (\<lambda>c.
        let k = py_add (py_add (py_add q0 (py_mul q1 c)) (py_mul q2 (py_pow c 2)))
                  (py_mul q3 (py_pow c 3));
            r = py_mul a k
        in Inr r))"

subsection \<open>The coverage factor\<close>

text \<open>
  The argument of \<^verbatim>\<open>k_val95\<close> is any Python object. \<^verbatim>\<open>isinstance(dof, int)\<close> holds
  of an \<^verbatim>\<open>int\<close> and of a \<^verbatim>\<open>bool\<close> (a subclass of \<^verbatim>\<open>int\<close>, with \<^verbatim>\<open>True == 1\<close>
  and \<^verbatim>\<open>False == 0\<close>), and of no float; \<open>PyObject c\<close> is an object of any other class
  \<open>c\<close>. Indexing a Python list counts a negative index from the end and raises
  \<^verbatim>\<open>IndexError\<close> outside the list.
\<close>

datatype py_value = PyInt int | PyBool bool | PyFloat real | PyObject string

fun isinstance_int :: "py_value \<Rightarrow> bool" where
  "isinstance_int (PyInt _) = True"
| "isinstance_int (PyBool _) = True"
| "isinstance_int (PyFloat _) = False"
| "isinstance_int (PyObject _) = False"

fun int_value :: "py_value \<Rightarrow> int" where
  "int_value (PyInt i) = i"
| "int_value (PyBool b) = (if b then 1 else 0)"
| "int_value _ = 0"

definition list_getitem :: "'a list \<Rightarrow> int \<Rightarrow> py_error + 'a" where
  "list_getitem xs i =
     (if 0 \<le> i \<and> i < int (length xs) then Inr (xs ! nat i)
      else if i < 0 \<and> - int (length xs) \<le> i then Inr (xs ! nat (int (length xs) + i))
      else Inl (IndexError ''list index out of range''))"

definition ttable_p95 :: "real list" where
  "ttable_p95 =
     [12.7062, 4.30265, 3.18245, 2.77645, 2.57058, 2.44691,
      2.36462, 2.30600, 2.26216, 2.22814, 2.20099, 2.17881,
      2.16037, 2.14479, 2.13145, 2.11991, 2.10982, 2.10092,
      2.09302, 2.08596, 2.07961, 2.07387, 2.06866, 2.06390,
      2.05954, 2.05553, 2.05183, 2.04841, 2.04523, 2.04227,
      2.03951, 2.03693, 2.03452, 2.03224, 2.03011, 2.02809,
      2.02619, 2.02439, 2.02269, 2.02108, 2.01954, 2.01808,
      2.01669, 2.01537, 2.01410, 2.01290, 2.01174, 2.01063,
      2.00958, 2.00856, 2.00758, 2.00665, 2.00575, 2.00488,
      2.00404, 2.00324, 2.00247, 2.00172, 2.00100, 2.00030,
      1.99962, 1.99897, 1.99834, 1.99773, 1.99714, 1.99656,
      1.99601, 1.99547, 1.99495, 1.99444, 1.99394, 1.99346,
      1.99300, 1.99254, 1.99210, 1.99167, 1.99125, 1.99085,
      1.99045, 1.99006, 1.98969, 1.98932, 1.98896, 1.98861,
      1.98827, 1.98793, 1.98761, 1.98729, 1.98698, 1.98667,
      1.98638, 1.98609, 1.98580, 1.98552, 1.98525, 1.98498,
      1.98472, 1.98447, 1.98422, 1.98397, 1.98373, 1.98350,
      1.98326, 1.98304, 1.98282, 1.98260, 1.98238, 1.98217,
      1.98197, 1.98177, 1.98157, 1.98137, 1.98118, 1.98099,
      1.98081, 1.98063, 1.98045, 1.98027, 1.98010, 1.97993]"

definition k_val95 :: "py_value \<Rightarrow> py_error + real" where
  "k_val95 dof =
     (if \<not> isinstance_int dof then Inl (TypeError ''Degrees of Freedom must be Int'')
      else if int_value dof < 1 then list_getitem ttable_p95 0
      else if int_value dof > 120 then Inr 1.96
      else list_getitem ttable_p95 (int_value dof - 1))"
subsection \<open>Notions the statements use\<close>

text \<open>
  The identity matrix; positive semi-definiteness of the symmetric block
  \<open>[[vxx, vxy], [vxy, vyy]]\<close> (its quadratic form is nowhere negative); the values
  \<^verbatim>\<open>z\<close> and \<^verbatim>\<open>0.5 * (Vxx + Vyy - z)\<close> as \<^verbatim>\<open>error_ellipse\<close> computes them; and the
  terms and partial sums of the series of \<open>arctan\<close>.
\<close>

definition eye3 :: ndarray where
  "eye3 = [[1, 0, 0], [0, 1, 0], [0, 0, 1]]"

definition psd_block :: "real \<Rightarrow> real \<Rightarrow> real \<Rightarrow> bool" where
  "psd_block vxx vxy vyy = (\<forall>x y. 0 \<le> x * (vxx * x + vxy * y) + y * (vxy * x + vyy * y))"

definition computed_z :: "real \<Rightarrow> real \<Rightarrow> real \<Rightarrow> real" where
  "computed_z vxx vxy vyy = fl (sqrt (fadd (fmul (fsub vxx vyy) (fsub vxx vyy)) (fmul 4 (fmul vxy vxy))))"

definition minor_radicand :: "real \<Rightarrow> real \<Rightarrow> real \<Rightarrow> real" where
  "minor_radicand vxx vxy vyy = fmul 0.5 (fsub (fadd vxx vyy) (computed_z vxx vxy vyy))"

definition arctan_term :: "real \<Rightarrow> nat \<Rightarrow> real" where
  "arctan_term x k = 1 / real (k * 2 + 1) * x ^ (k * 2 + 1)"

fun arctan_sum :: "real \<Rightarrow> nat \<Rightarrow> real" where
  "arctan_sum x 0 = 0"
| "arctan_sum x (Suc n) = arctan_sum x n + (- 1) ^ n * arctan_term x n"

section \<open>Matrices of shape (3, 3)\<close>

lemma shape33:
  "has_shape a 3 3 \<Longrightarrow>
   \<exists>a00 a01 a02 a10 a11 a12 a20 a21 a22. a = [[a00,a01,a02],[a10,a11,a12],[a20,a21,a22]]"
  unfolding has_shape_def
  by (auto simp: length_Suc_conv numeral_3_eq_3)

lemma upt3: "[0..<3] = [0, 1, 2]"
  by (simp add: upt_rec)

lemma matmul33:
  "matmul [[a00,a01,a02],[a10,a11,a12],[a20,a21,a22]] [[b00,b01,b02],[b10,b11,b12],[b20,b21,b22]]
   = [[a00*b00+a01*b10+a02*b20, a00*b01+a01*b11+a02*b21, a00*b02+a01*b12+a02*b22],
      [a10*b00+a11*b10+a12*b20, a10*b01+a11*b11+a12*b21, a10*b02+a11*b12+a12*b22],
      [a20*b00+a21*b10+a22*b20, a20*b01+a21*b11+a22*b21, a20*b02+a21*b12+a22*b22]]"
  by (simp add: matmul_def shape1_def upt3 column_def dot_def)

lemma transpose33:
  "transpose_nd [[a00,a01,a02],[a10,a11,a12],[a20,a21,a22]] = [[a00,a10,a20],[a01,a11,a21],[a02,a12,a22]]"
  by (simp add: transpose_nd_def shape1_def upt3 column_def)

lemma matmul_assoc33:
  assumes "has_shape a 3 3" "has_shape b 3 3" "has_shape c 3 3"
  shows "matmul (matmul a b) c = matmul a (matmul b c)"
proof -
  from assms(1) obtain a00 a01 a02 a10 a11 a12 a20 a21 a22
    where a: "a = [[a00,a01,a02],[a10,a11,a12],[a20,a21,a22]]" using shape33 by blast
  from assms(2) obtain b00 b01 b02 b10 b11 b12 b20 b21 b22
    where b: "b = [[b00,b01,b02],[b10,b11,b12],[b20,b21,b22]]" using shape33 by blast
  from assms(3) obtain c00 c01 c02 c10 c11 c12 c20 c21 c22
    where c: "c = [[c00,c01,c02],[c10,c11,c12],[c20,c21,c22]]" using shape33 by blast
  show ?thesis unfolding a b c matmul33
    by (simp add: algebra_simps)
qed

lemma matmul_shape33:
  assumes "has_shape a 3 3" "has_shape b 3 3"
  shows "has_shape (matmul a b) 3 3"
proof -
  from assms(1) obtain a00 a01 a02 a10 a11 a12 a20 a21 a22
    where a: "a = [[a00,a01,a02],[a10,a11,a12],[a20,a21,a22]]" using shape33 by blast
  from assms(2) obtain b00 b01 b02 b10 b11 b12 b20 b21 b22
    where b: "b = [[b00,b01,b02],[b10,b11,b12],[b20,b21,b22]]" using shape33 by blast
  show ?thesis unfolding a b matmul33 by (simp add: has_shape_def)
qed

lemma matmul_eye3_left: "has_shape a 3 3 \<Longrightarrow> matmul eye3 a = a"
  using shape33[of a] by (auto simp: eye3_def matmul33)

lemma matmul_eye3_right: "has_shape a 3 3 \<Longrightarrow> matmul a eye3 = a"
  using shape33[of a] by (auto simp: eye3_def matmul33)

section \<open>The rotation matrix is orthogonal\<close>

lemma rot_shape: "has_shape (rotation_matrix lat lon) 3 3"
  by (simp add: rotation_matrix_def has_shape_def Let_def)

lemma rot_t_shape: "has_shape (transpose_nd (rotation_matrix lat lon)) 3 3"
  by (simp add: rotation_matrix_def has_shape_def Let_def transpose33)

lemma sc1: "sin x * sin x + cos x * cos x = (1::real)"
  using sin_cos_squared_add[of x] by (simp add: power2_eq_square)

lemma rot_rot_t: "matmul (rotation_matrix lat lon) (transpose_nd (rotation_matrix lat lon)) = eye3"
proof -
  define s where "s = sin (radians lat)"
  define c where "c = cos (radians lat)"
  define t where "t = sin (radians lon)"
  define d where "d = cos (radians lon)"
  have 1: "s * s + c * c = 1" and 2: "t * t + d * d = 1"
    unfolding s_def c_def t_def d_def by (rule sc1)+
  have e00: "t * t + s * d * (s * d) + c * d * (c * d) = 1"
  proof -
    have "t * t + s * d * (s * d) + c * d * (c * d) = t * t + d * d * (s * s + c * c)"
      by (simp add: algebra_simps)
    then show ?thesis using 1 2 by simp
  qed
  have e11: "d * d + s * t * (s * t) + c * t * (c * t) = 1"
  proof -
    have "d * d + s * t * (s * t) + c * t * (c * t) = d * d + t * t * (s * s + c * c)"
      by (simp add: algebra_simps)
    then show ?thesis using 1 2 by simp
  qed
  have e01: "- (t * d) + s * d * (s * t) + c * d * (c * t) = 0"
  proof -
    have "- (t * d) + s * d * (s * t) + c * d * (c * t) = t * d * (s * s + c * c - 1)"
      by (simp add: algebra_simps)
    then show ?thesis using 1 by simp
  qed
  have e10: "- (d * t) + s * t * (s * d) + c * t * (c * d) = 0"
    using e01 by (simp add: algebra_simps)
  have e22: "c * c + s * s = 1" using 1 by (simp add: algebra_simps)
  show ?thesis
    unfolding rotation_matrix_def Let_def transpose33 matmul33 eye3_def
      s_def[symmetric] c_def[symmetric] t_def[symmetric] d_def[symmetric]
    using e00 e11 e01 e10 e22 by (simp add: algebra_simps)
qed

section \<open>Frame conversions\<close>

text \<open>
  C1. Round trip: for every matrix \<open>v\<close> of shape (3, 3), symmetric or not, and every latitude
  and longitude, converting \<open>v\<close> to the local frame and the result back to the Cartesian frame
  returns \<open>v\<close>, exactly, over real arithmetic.
\<close>

theorem vcv_roundtrip:
  assumes "has_shape v 3 3"
  shows "bind_err (vcv_cart2local v lat lon) (\<lambda>l. vcv_local2cart l lat lon) = Inr v"
proof -
  let ?r = "rotation_matrix lat lon"
  let ?t = "transpose_nd ?r"
  let ?l = "matmul (matmul ?t v) ?r"
  have s0: "shape0 v = 3" and s1: "shape1 v = 3"
    using shape33[OF assms] by (auto simp: shape0_def shape1_def)
  have l_shape: "has_shape ?l 3 3"
    by (intro matmul_shape33 rot_t_shape rot_shape assms)
  have l0: "shape0 ?l = 3" and l1: "shape1 ?l = 3"
    using shape33[OF l_shape] by (auto simp: shape0_def shape1_def)
  have c2l: "vcv_cart2local v lat lon = Inr ?l"
    by (simp add: vcv_cart2local_def s0 s1 bind_err_def Let_def)
  have l2c: "vcv_local2cart ?l lat lon = Inr (matmul (matmul ?r ?l) ?t)"
    by (simp add: vcv_local2cart_def l0 l1 bind_err_def Let_def)
  have tv: "has_shape (matmul ?t v) 3 3"
    by (intro matmul_shape33 rot_t_shape assms)
  have "matmul ?r ?l = matmul (matmul ?r (matmul ?t v)) ?r"
    by (simp add: matmul_assoc33 rot_shape tv)
  also have "\<dots> = matmul (matmul (matmul ?r ?t) v) ?r"
    by (simp add: matmul_assoc33 rot_shape rot_t_shape assms)
  also have "\<dots> = matmul v ?r"
    by (simp add: rot_rot_t matmul_eye3_left assms)
  finally have "matmul (matmul ?r ?l) ?t = matmul v (matmul ?r ?t)"
    by (simp add: matmul_assoc33 rot_shape rot_t_shape assms)
  then have "matmul (matmul ?r ?l) ?t = v"
    by (simp add: rot_rot_t matmul_eye3_right assms)
  then show ?thesis
    by (simp add: c2l l2c bind_err_def)
qed

theorem vcv_roundtrip_witness:
  "has_shape [[2, 1, 0], [1, 3, 0], [0, 0, 1]] 3 3 \<and>
   bind_err (vcv_cart2local [[2, 1, 0], [1, 3, 0], [0, 0, 1]] (- 37) 145)
     (\<lambda>l. vcv_local2cart l (- 37) 145) = Inr [[2, 1, 0], [1, 3, 0], [0, 0, 1]]"
proof -
  have h: "has_shape [[2, 1, 0], [1, 3, 0], [0, 0, 1]] 3 3"
    by (simp add: has_shape_def)
  show ?thesis using h vcv_roundtrip [OF h, of "- 37" 145] by simp
qed

text \<open>
  Every input of another shape stops both conversions, with the \<^verbatim>\<open>NameError\<close> of the
  unbound name \<^verbatim>\<open>sys\<close>.
\<close>

lemma vcv_bad_shape_stops:
  "shape0 m \<noteq> 3 \<or> (shape1 m \<noteq> 1 \<and> shape1 m \<noteq> 3) \<Longrightarrow>
   vcv_cart2local m lat lon = Inl (NameError ''name 'sys' is not defined'')
  \<and> vcv_local2cart m lat lon = Inl (NameError ''name 'sys' is not defined'')"
  by (auto simp add: vcv_cart2local_def vcv_local2cart_def sys_exit_def bind_err_def)

text \<open>
  C2. At a 2x2 and at a 4x3 input both conversions stop without a result, but the exception
  is \<^verbatim>\<open>NameError\<close> (the module never imports \<^verbatim>\<open>sys\<close>), not the shape error with
  the message \<^verbatim>\<open>Matrix must be either 3x1 or 3x3\<close> that the source means to raise.
\<close>

theorem vcv_bad_shape_NameError:
  "vcv_cart2local [[1, 0], [0, 1]] lat lon = Inl (NameError ''name 'sys' is not defined'')
   \<and> vcv_local2cart [[1, 0], [0, 1]] lat lon = Inl (NameError ''name 'sys' is not defined'')
   \<and> vcv_cart2local [[1, 0, 0], [0, 1, 0], [0, 0, 1], [0, 0, 0]] lat lon
       = Inl (NameError ''name 'sys' is not defined'')
   \<and> vcv_local2cart [[1, 0, 0], [0, 1, 0], [0, 0, 1], [0, 0, 0]] lat lon
       = Inl (NameError ''name 'sys' is not defined'')"
  by (simp add: vcv_cart2local_def vcv_local2cart_def shape0_def shape1_def sys_exit_def
      bind_err_def)

section \<open>Rounding to the nearest double\<close>

lemma pow2_powr: "pow2 k = 2 powr (of_int k)"
  by (simp add: pow2_def powr_real_of_int inverse_eq_divide)

lemma pow2_pos: "0 < pow2 k"
  by (simp add: pow2_powr)

lemma pow2_add: "pow2 (j + k) = pow2 j * pow2 k"
  by (simp add: pow2_powr powr_add)

lemma pow2_mono: "j \<le> k \<Longrightarrow> pow2 j \<le> pow2 k"
  by (simp add: pow2_powr)

lemma pow2_52: "pow2 52 = 4503599627370496"
  by (simp add: pow2_def)

lemma binade_eq:
  assumes "0 < x" "pow2 e \<le> x" "x < pow2 (e + 1)"
  shows "\<lfloor>log 2 x\<rfloor> = e"
  using assms by (simp add: floor_log_eq_powr_iff pow2_powr)

lemma binade_bounds:
  assumes "0 < x"
  shows "pow2 \<lfloor>log 2 x\<rfloor> \<le> x \<and> x < pow2 (\<lfloor>log 2 x\<rfloor> + 1)"
  using assms floor_log_eq_powr_iff[of x 2 "\<lfloor>log 2 x\<rfloor>"] by (simp add: pow2_powr)

lemma rhe_bounds: "y - 1 / 2 \<le> of_int (rhe y) \<and> of_int (rhe y) \<le> y + 1 / 2"
  unfolding rhe_def Let_def by (auto; linarith)

lemma rhe_of_int: "rhe (of_int n) = n"
  by (simp add: rhe_def)

lemma rhe_unique: "of_int n - 1 / 2 < y \<Longrightarrow> y < of_int n + 1 / 2 \<Longrightarrow> rhe y = n"
  using rhe_bounds[of y] by linarith

lemma rhe_mono:
  assumes "x \<le> y"
  shows "rhe x \<le> rhe y"
proof (rule ccontr)
  assume "\<not> rhe x \<le> rhe y"
  then have lt: "rhe y + 1 \<le> rhe x" by simp
  have bx: "of_int (rhe x) \<le> x + 1 / 2" and by': "y - 1 / 2 \<le> of_int (rhe y)"
    using rhe_bounds by blast+
  from lt have "real_of_int (rhe y) + 1 \<le> of_int (rhe x)" by linarith
  with bx by' assms have xy: "x = y" and rx: "of_int (rhe x) = x + 1 / 2" and ry: "of_int (rhe y) = y - 1 / 2"
    by linarith+
  from rx ry xy have "real_of_int (rhe x) = of_int (rhe y) + 1" by linarith
  with xy show False by simp
qed

lemma fl_zero: "fl 0 = 0"
  by (simp add: fl_def)

lemma fl_minus: "fl (- x) = - fl x"
  by (simp add: fl_def Let_def sgn_minus)

lemma fl_pos_eval:
  assumes "0 < x" "pow2 e \<le> x" "x < pow2 (e + 1)"
  shows "fl x = pow2 (e - 52) * of_int (rhe (x / pow2 (e - 52)))"
  using assms binade_eq[OF assms] by (simp add: fl_def Let_def)

lemma fl_exact:
  assumes "0 < x" "pow2 e \<le> x" "x < pow2 (e + 1)" "x / pow2 (e - 52) = of_int n"
  shows "fl x = x"
proof -
  have "fl x = pow2 (e - 52) * (x / pow2 (e - 52))"
    using fl_pos_eval[OF assms(1-3)] assms(4) by (simp add: rhe_of_int)
  then show ?thesis using pow2_pos[of "e - 52"] by simp
qed

lemma scaled_range:
  assumes "pow2 e \<le> x" "x < pow2 (e + 1)"
  shows "pow2 52 \<le> x / pow2 (e - 52) \<and> x / pow2 (e - 52) < pow2 53"
proof -
  have a: "pow2 e = pow2 52 * pow2 (e - 52)" and b: "pow2 (e + 1) = pow2 53 * pow2 (e - 52)"
    using pow2_add[of 52 "e - 52"] pow2_add[of 53 "e - 52"] by (simp_all add: algebra_simps)
  show ?thesis using assms pow2_pos[of "e - 52"] unfolding a b
    by (simp add: field_simps)
qed

lemma fl_pos_bounds:
  assumes "0 < x" "pow2 e \<le> x" "x < pow2 (e + 1)"
  shows "pow2 e \<le> fl x \<and> fl x \<le> pow2 (e + 1)"
proof -
  let ?u = "pow2 (e - 52)"
  have r: "pow2 52 \<le> x / ?u" "x / ?u < pow2 53"
    using scaled_range[OF assms(2,3)] by simp_all
  have i52: "pow2 52 = of_int (2 ^ 52)" and i53: "pow2 53 = of_int (2 ^ 53)"
    by (simp_all add: pow2_def)
  have "rhe (of_int (2 ^ 52)) \<le> rhe (x / ?u)" using r(1) unfolding i52 by (rule rhe_mono)
  then have lo: "pow2 52 \<le> of_int (rhe (x / ?u))" unfolding i52 rhe_of_int by linarith
  have "rhe (x / ?u) \<le> rhe (of_int (2 ^ 53))" using r(2) unfolding i53 by (intro rhe_mono) simp
  then have hi: "of_int (rhe (x / ?u)) \<le> pow2 53" unfolding i53 rhe_of_int by linarith
  have a: "pow2 e = ?u * pow2 52" and b: "pow2 (e + 1) = ?u * pow2 53"
    using pow2_add[of "e - 52" 52] pow2_add[of "e - 52" 53] by (simp_all add: algebra_simps)
  have f: "fl x = ?u * of_int (rhe (x / ?u))" using assms by (rule fl_pos_eval)
  show ?thesis unfolding f a b using lo hi pow2_pos[of "e - 52"] by simp
qed

lemma fl_pos: "0 < x \<Longrightarrow> 0 < fl x"
  using fl_pos_bounds[of x "\<lfloor>log 2 x\<rfloor>"] binade_bounds[of x] pow2_pos[of "\<lfloor>log 2 x\<rfloor>"]
  by linarith

lemma fl_neg: "x < 0 \<Longrightarrow> fl x < 0"
  using fl_pos[of "- x"] by (simp add: fl_minus)

lemma fl_nonneg: "0 \<le> x \<Longrightarrow> 0 \<le> fl x"
  using fl_pos[of x] fl_zero by (cases "x = 0") (auto simp: less_eq_real_def)

lemma fl_mono_pos:
  assumes "0 < x" "x \<le> y"
  shows "fl x \<le> fl y"
proof -
  let ?e = "\<lfloor>log 2 x\<rfloor>" and ?f = "\<lfloor>log 2 y\<rfloor>"
  have y: "0 < y" using assms by simp
  have bx: "pow2 ?e \<le> x" "x < pow2 (?e + 1)" using binade_bounds[OF assms(1)] by simp_all
  have by': "pow2 ?f \<le> y" "y < pow2 (?f + 1)" using binade_bounds[OF y] by simp_all
  have ef: "?e \<le> ?f" using assms by (intro floor_mono) simp
  show ?thesis
  proof (cases "?e = ?f")
    case True
    let ?u = "pow2 (?e - 52)"
    have "x / ?u \<le> y / ?u" using assms(2) pow2_pos[of "?e - 52"] by (simp add: divide_right_mono)
    then have "rhe (x / ?u) \<le> rhe (y / ?u)" by (rule rhe_mono)
    then have "?u * of_int (rhe (x / ?u)) \<le> ?u * of_int (rhe (y / ?u))"
      using pow2_pos[of "?e - 52"] by simp
    then show ?thesis
      using fl_pos_eval[OF assms(1) bx] fl_pos_eval[OF y by'] True by simp
  next
    case False
    with ef have "?e + 1 \<le> ?f" by simp
    then have "pow2 (?e + 1) \<le> pow2 ?f" by (rule pow2_mono)
    moreover have "fl x \<le> pow2 (?e + 1)" using fl_pos_bounds[OF assms(1) bx] by simp
    moreover have "pow2 ?f \<le> fl y" using fl_pos_bounds[OF y by'] by simp
    ultimately show ?thesis by linarith
  qed
qed

lemma fl_mono:
  assumes "x \<le> y"
  shows "fl x \<le> fl y"
proof -
  consider "0 < x" | "x \<le> 0" "0 \<le> y" | "y < 0" by linarith
  then show ?thesis
  proof cases
    case 1
    then show ?thesis using assms by (rule fl_mono_pos)
  next
    case 2
    have "fl x \<le> 0" using fl_nonneg[of "- x"] 2(1) by (simp add: fl_minus)
    moreover have "0 \<le> fl y" using 2(2) by (rule fl_nonneg)
    ultimately show ?thesis by simp
  next
    case 3
    have "fl (- y) \<le> fl (- x)" using 3 assms by (intro fl_mono_pos) simp_all
    then show ?thesis by (simp add: fl_minus)
  qed
qed

lemma rhe_tie_even: "even n \<Longrightarrow> rhe (of_int n + 1 / 2) = n"
  by (simp add: rhe_def Let_def)

lemma rhe_tie_odd: "odd n \<Longrightarrow> rhe (of_int n + 1 / 2) = n + 1"
  by (simp add: rhe_def Let_def)

lemma fl_representable_pos:
  assumes "0 < m" "m < 2 ^ 53"
  shows "fl (of_int m * pow2 k) = of_int m * pow2 k"
proof -
  let ?x = "real_of_int m"
  let ?j = "\<lfloor>log 2 ?x\<rfloor>"
  have mp: "0 < ?x" using assms(1) by simp
  have jb: "pow2 ?j \<le> ?x" "?x < pow2 (?j + 1)" using binade_bounds[OF mp] by simp_all
  have "?x < pow2 53" using assms(2) by (simp add: pow2_def)
  with jb(1) have "pow2 ?j < pow2 53" by linarith
  then have j52: "?j \<le> 52" using pow2_mono[of 53 ?j] by (cases "?j \<le> 52") auto
  have xp: "0 < ?x * pow2 k" using mp pow2_pos by simp
  have lo: "pow2 (?j + k) \<le> ?x * pow2 k"
    using jb(1) pow2_pos[of k] by (simp add: pow2_add)
  have hi: "?x * pow2 k < pow2 (?j + k + 1)"
    using jb(2) pow2_pos[of k] pow2_add[of "?j + 1" k] by (simp add: algebra_simps)
  have "pow2 (52 - ?j) = of_int (2 ^ nat (52 - ?j))"
    using j52 by (simp add: pow2_def)
  moreover have "pow2 k = pow2 (52 - ?j) * pow2 (?j + k - 52)"
    using pow2_add[of "52 - ?j" "?j + k - 52"] by simp
  ultimately have "?x * pow2 k / pow2 (?j + k - 52) = of_int (m * 2 ^ nat (52 - ?j))"
    using pow2_pos[of "?j + k - 52"] by simp
  with xp lo hi show ?thesis by (rule fl_exact)
qed

lemma fl_representable:
  assumes "\<bar>m\<bar> < 2 ^ 53"
  shows "fl (of_int m * pow2 k) = of_int m * pow2 k"
proof -
  consider "0 < m" | "m = 0" | "m < 0" by linarith
  then show ?thesis
  proof cases
    case 1
    then show ?thesis using assms by (intro fl_representable_pos) simp_all
  next
    case 2
    then show ?thesis by (simp add: fl_zero)
  next
    case 3
    then have "fl (of_int (- m) * pow2 k) = of_int (- m) * pow2 k"
      using assms by (intro fl_representable_pos) simp_all
    then show ?thesis using fl_minus[of "of_int m * pow2 k"] by simp
  qed
qed

lemma fl_int: "\<bar>m\<bar> < 2 ^ 53 \<Longrightarrow> fl (of_int m) = of_int m"
  using fl_representable[of m 0] by (simp add: pow2_def)

lemma fl_small:
  "fl 1 = 1" "fl 2 = 2" "fl 3 = 3" "fl 4 = 4" "fl 5 = 5" "fl 8 = 8" "fl 9 = 9" "fl 16 = 16"
  "fl 90 = 90" "fl 180 = 180" "fl (- 1) = - 1" "fl (- 2) = - 2" "fl (- 3) = - 3"
  using fl_int[of 1] fl_int[of 2] fl_int[of 3] fl_int[of 4] fl_int[of 5] fl_int[of 8]
    fl_int[of 9] fl_int[of 16] fl_int[of 90] fl_int[of 180] fl_int[of "- 1"] fl_int[of "- 2"]
    fl_int[of "- 3"]
  by simp_all

lemma fl_half: "fl (1 / 2) = 1 / 2"
  using fl_representable[of 1 "- 1"] by (simp add: pow2_def)

lemma fl_pow2: "fl (pow2 k) = pow2 k"
  using fl_representable[of 1 k] by simp

section \<open>The double nearest to \<open>\<pi>\<close>\<close>

lemma arctan_sum_eq: "arctan_sum x n = (\<Sum>i<n. (- 1) ^ i * arctan_term x i)"
  by (induction n) simp_all

lemma arctan_term_decreasing:
  assumes "0 \<le> x" "x \<le> 1"
  shows "arctan_term x (Suc k) \<le> arctan_term x k"
proof -
  have "x ^ (Suc k * 2 + 1) \<le> x ^ (k * 2 + 1)"
    using assms by (intro power_decreasing) simp_all
  moreover have "1 / real (Suc k * 2 + 1) \<le> 1 / real (k * 2 + 1)"
    by (simp add: field_simps)
  moreover have "0 \<le> x ^ (Suc k * 2 + 1)" "0 \<le> 1 / real (k * 2 + 1)"
    using assms by simp_all
  ultimately show ?thesis
    unfolding arctan_term_def by (intro mult_mono) simp_all
qed

lemma arctan_between:
  assumes "0 \<le> x" "x \<le> 1"
  shows "arctan_sum x (2 * n) \<le> arctan x" and "arctan x \<le> arctan_sum x (2 * n + 1)"
proof -
  have ax: "\<bar>x\<bar> \<le> 1" using assms by simp
  have z: "arctan_term x \<longlonglongrightarrow> 0"
    using zeroseq_arctan_series[OF ax] unfolding arctan_term_def .
  have p: "\<And>k. 0 \<le> arctan_term x k" using assms by (simp add: arctan_term_def)
  have m: "\<And>k. arctan_term x (Suc k) \<le> arctan_term x k"
    using assms by (rule arctan_term_decreasing)
  have s: "arctan x = (\<Sum>k. (- 1) ^ k * arctan_term x k)"
    using arctan_series[OF ax] unfolding arctan_term_def .
  show "arctan_sum x (2 * n) \<le> arctan x"
    unfolding s arctan_sum_eq by (rule summable_Leibniz'(2)[OF z p m])
  show "arctan x \<le> arctan_sum x (2 * n + 1)"
    unfolding s arctan_sum_eq by (rule summable_Leibniz'(4)[OF z p m])
qed

lemma pi_machin: "pi = 16 * arctan (1 / 5) - 4 * arctan (1 / 239)"
  using machin by simp

lemma pi_upper: "pi \<le> 16 * arctan_sum (1 / 5) 13 - 4 * arctan_sum (1 / 239) 4"
  using arctan_between(2)[of "1 / 5" 6] arctan_between(1)[of "1 / 239" 2]
  unfolding pi_machin by simp

lemma pi_lower: "16 * arctan_sum (1 / 5) 12 - 4 * arctan_sum (1 / 239) 5 \<le> pi"
  using arctan_between(1)[of "1 / 5" 6] arctan_between(2)[of "1 / 239" 2]
  unfolding pi_machin by simp

lemma pi_gt: "884279719003555 / 2 ^ 48 < pi"
proof -
  have "(884279719003555 / 2 ^ 48 :: real) < 16 * arctan_sum (1 / 5) 12 - 4 * arctan_sum (1 / 239) 5"
    by (simp add: eval_nat_numeral arctan_term_def)
  with pi_lower show ?thesis by linarith
qed

lemma pi_lt: "pi < 884279719003555 / 2 ^ 48 + 3 / 2 ^ 54"
proof -
  have "16 * arctan_sum (1 / 5) 13 - 4 * arctan_sum (1 / 239) 4 < (884279719003555 / 2 ^ 48 + 3 / 2 ^ 54 :: real)"
    by (simp add: eval_nat_numeral arctan_term_def)
  with pi_upper show ?thesis by linarith
qed

lemma math_pi_value: "math_pi = 884279719003555 / 2 ^ 48"
proof -
  have "fl pi = pow2 (1 - 52) * of_int (rhe (pi / pow2 (1 - 52)))"
    using pi_gt pi_lt by (intro fl_pos_eval) (simp_all add: pow2_def)
  moreover have "rhe (pi / pow2 (1 - 52)) = 7074237752028440"
    using pi_gt pi_lt by (intro rhe_unique) (simp_all add: pow2_def field_simps)
  ultimately show ?thesis by (simp add: math_pi_def pow2_def)
qed

lemma radToDeg_value: "radToDeg = 1007958012753983 / 2 ^ 44"
proof -
  have "fl (180 / math_pi) = pow2 (5 - 52) * of_int (rhe (180 / math_pi / pow2 (5 - 52)))"
    unfolding math_pi_value by (intro fl_pos_eval) (simp_all add: pow2_def)
  moreover have "rhe (180 / math_pi / pow2 (5 - 52)) = 8063664102031864"
    unfolding math_pi_value by (intro rhe_unique) (simp_all add: pow2_def)
  ultimately show ?thesis by (simp add: radToDeg_def pow2_def)
qed

lemma half_pi_exact: "fl (math_pi / 2) = math_pi / 2"
  using fl_representable[of 884279719003555 "- 49"] by (simp add: math_pi_value pow2_def)

lemma degrees_half_pi: "fl (math_pi / 2 * radToDeg) = 90"
proof -
  have "fl (math_pi / 2 * radToDeg) = pow2 (6 - 52) * of_int (rhe (math_pi / 2 * radToDeg / pow2 (6 - 52)))"
    unfolding math_pi_value radToDeg_value by (intro fl_pos_eval) (simp_all add: pow2_def)
  moreover have "rhe (math_pi / 2 * radToDeg / pow2 (6 - 52)) = 6333186975989760"
    unfolding math_pi_value radToDeg_value by (intro rhe_unique) (simp_all add: pow2_def)
  ultimately show ?thesis by (simp add: pow2_def)
qed

section \<open>The polar angle\<close>

text \<open>
  \<open>atan2\<close> is the polar angle: it gives back the point, and it lies in \<open>(-\<pi>, \<pi>]\<close>. Rounded,
  it lies between \<^verbatim>\<open>-math.pi\<close> and \<^verbatim>\<open>math.pi\<close>, both ends included.
\<close>

lemma hyp_arctan:
  assumes "x \<noteq> 0"
  shows "sqrt (1 + (y / x)\<^sup>2) = sqrt (x\<^sup>2 + y\<^sup>2) / \<bar>x\<bar>"
proof -
  have "1 + (y / x)\<^sup>2 = (x\<^sup>2 + y\<^sup>2) / x\<^sup>2"
    using assms by (simp add: field_simps power2_eq_square)
  then show ?thesis by (simp add: real_sqrt_divide)
qed

lemma atan2_polar:
  assumes "x \<noteq> 0 \<or> y \<noteq> 0"
  shows "sqrt (x\<^sup>2 + y\<^sup>2) * cos (atan2 y x) = x \<and> sqrt (x\<^sup>2 + y\<^sup>2) * sin (atan2 y x) = y"
proof -
  have r: "0 < sqrt (x\<^sup>2 + y\<^sup>2)"
    using assms by (auto simp: sum_power2_gt_zero_iff)
  consider (right) "0 < x" | (q2) "x < 0" "0 \<le> y" | (q3) "x < 0" "y < 0"
    | (up) "x = 0" "0 < y" | (down) "x = 0" "y < 0"
    using assms by linarith
  then show ?thesis
  proof cases
    case right
    then have a: "atan2 y x = arctan (y / x)" by (simp add: atan2_def)
    show ?thesis unfolding a cos_arctan sin_arctan using right r
      by (simp add: hyp_arctan)
  next
    case q2
    then have a: "atan2 y x = arctan (y / x) + pi" by (simp add: atan2_def)
    show ?thesis unfolding a using q2 r
      by (simp add: cos_arctan sin_arctan hyp_arctan)
  next
    case q3
    then have a: "atan2 y x = arctan (y / x) - pi" by (simp add: atan2_def)
    have "cos (arctan (y / x) - pi) = - cos (arctan (y / x))"
      "sin (arctan (y / x) - pi) = - sin (arctan (y / x))"
      by (simp_all add: cos_diff sin_diff)
    then show ?thesis unfolding a using q3 r
      by (simp add: cos_arctan sin_arctan hyp_arctan)
  next
    case up
    then show ?thesis by (simp add: atan2_def)
  next
    case down
    then show ?thesis by (simp add: atan2_def)
  qed
qed

lemma arctan_quadrant2: "x < 0 \<Longrightarrow> 0 \<le> y \<Longrightarrow> arctan (y / x) \<le> 0"
proof -
  assume "x < 0" "0 \<le> y"
  then have "y / x \<le> 0" by (simp add: divide_nonneg_neg)
  then have "arctan (y / x) \<le> arctan 0" by (simp only: arctan_le_iff)
  then show ?thesis by simp
qed

lemma arctan_quadrant3: "x < 0 \<Longrightarrow> y < 0 \<Longrightarrow> 0 < arctan (y / x)"
proof -
  assume "x < 0" "y < 0"
  then have "0 < y / x" by (simp add: divide_neg_neg)
  then have "arctan 0 < arctan (y / x)" by (simp only: arctan_less_iff)
  then show ?thesis by simp
qed

lemma atan2_range: "- pi < atan2 y x \<and> atan2 y x \<le> pi"
proof -
  have p: "0 < pi" by (rule pi_gt_zero)
  have ub: "arctan (y / x) < pi / 2" by (rule arctan_ubound)
  have lb: "- (pi / 2) < arctan (y / x)" by (rule arctan_lbound)
  consider (right) "0 < x" | (q2) "x < 0" "0 \<le> y" | (q3) "x < 0" "y < 0"
    | (up) "x = 0" "0 < y" | (down) "x = 0" "y < 0" | (origin) "x = 0" "y = 0"
    by linarith
  then show ?thesis
  proof cases
    case right
    then have "atan2 y x = arctan (y / x)" by (simp add: atan2_def)
    with p ub lb show ?thesis by linarith
  next
    case q2
    then have "atan2 y x = arctan (y / x) + pi" by (simp add: atan2_def)
    with p lb arctan_quadrant2[OF q2] show ?thesis by linarith
  next
    case q3
    then have "atan2 y x = arctan (y / x) - pi" by (simp add: atan2_def)
    with p ub arctan_quadrant3[OF q3] show ?thesis by linarith
  next
    case up
    then have "atan2 y x = pi / 2" by (simp add: atan2_def)
    with p show ?thesis by linarith
  next
    case down
    then have "atan2 y x = - (pi / 2)" by (simp add: atan2_def)
    with p show ?thesis by linarith
  next
    case origin
    then have "atan2 y x = 0" by (simp add: atan2_def)
    with p show ?thesis by simp
  qed
qed

lemma math_atan2_range: "- math_pi \<le> math_atan2 y x \<and> math_atan2 y x \<le> math_pi"
proof -
  have "fl (- pi) \<le> fl (atan2 y x)" "fl (atan2 y x) \<le> fl pi"
    using atan2_range[of y x] by (intro fl_mono; simp)+
  then show ?thesis by (simp add: math_atan2_def math_pi_def fl_minus)
qed

lemma radToDeg_pos: "0 < radToDeg"
  by (simp add: radToDeg_value)

lemma orientation_closed_range:
  "0 \<le> fsub 90 (math_degrees (fmul 0.5 (math_atan2 y x)))
   \<and> fsub 90 (math_degrees (fmul 0.5 (math_atan2 y x))) \<le> 180"
proof -
  define t where "t = math_atan2 y x"
  define h where "h = fmul 0.5 t"
  define g where "g = math_degrees h"
  have t: "- math_pi \<le> t" "t \<le> math_pi"
    unfolding t_def using math_atan2_range by blast+
  have "fl (0.5 * (- math_pi)) \<le> fl (0.5 * t)" "fl (0.5 * t) \<le> fl (0.5 * math_pi)"
    using t by (intro fl_mono; simp)+
  then have h: "- (math_pi / 2) \<le> h" "h \<le> math_pi / 2"
    unfolding h_def fmul_def using half_pi_exact fl_minus[of "math_pi / 2"] by simp_all
  have m: "- (math_pi / 2) * radToDeg \<le> h * radToDeg" "h * radToDeg \<le> math_pi / 2 * radToDeg"
    using h radToDeg_pos by (intro mult_right_mono; simp)+
  have "fl (- (math_pi / 2) * radToDeg) \<le> fl (h * radToDeg)"
    "fl (h * radToDeg) \<le> fl (math_pi / 2 * radToDeg)"
    by (simp_all only: fl_mono[OF m(1)] fl_mono[OF m(2)])
  then have g: "- 90 \<le> g" "g \<le> 90"
    unfolding g_def math_degrees_def fmul_def
    using degrees_half_pi fl_minus[of "math_pi / 2 * radToDeg"] by simp_all
  have "fl 0 \<le> fl (90 - g)" "fl (90 - g) \<le> fl 180"
    using g by (intro fl_mono; simp)+
  then show ?thesis
    unfolding g_def h_def t_def fsub_def[of 90] by (simp add: fl_zero fl_small)
qed

lemma arctan_le_self: "0 \<le> x \<Longrightarrow> x \<le> 1 \<Longrightarrow> arctan x \<le> x"
  using arctan_between(2)[of x 0] by (simp add: arctan_term_def)

lemma atan2_near_minus_pi: "math_atan2 (- (1 / 2 ^ 59)) (- 3) = - math_pi"
proof -
  let ?e = "arctan (1 / 2 ^ 59 / 3)"
  have e0: "0 \<le> ?e" by simp
  have e1: "?e \<le> 1 / 2 ^ 59 / 3" by (rule arctan_le_self) simp_all
  have a: "atan2 (- (1 / 2 ^ 59)) (- 3) = - (pi - ?e)" by (simp add: atan2_def)
  have lo: "884279719003555 / 2 ^ 48 - 1 / 2 ^ 59 < pi - ?e"
    using pi_gt e1 by (simp add: field_simps)
  have hi: "pi - ?e < 884279719003555 / 2 ^ 48 + 3 / 2 ^ 54"
    using pi_lt e0 by linarith
  have "fl (pi - ?e) = pow2 (1 - 52) * of_int (rhe ((pi - ?e) / pow2 (1 - 52)))"
    using lo hi by (intro fl_pos_eval) (simp_all add: pow2_def)
  moreover have "rhe ((pi - ?e) / pow2 (1 - 52)) = 7074237752028440"
    using lo hi by (intro rhe_unique) (simp_all add: pow2_def field_simps)
  ultimately have "fl (pi - ?e) = math_pi" by (simp add: math_pi_value pow2_def)
  then have "fl (- (pi - ?e)) = - math_pi" by (simp only: fl_minus)
  then show ?thesis unfolding math_atan2_def a .
qed

lemma degrees_minus_half_pi: "math_degrees (- (math_pi / 2)) = - 90"
  using degrees_half_pi fl_minus[of "math_pi / 2 * radToDeg"]
  by (simp add: math_degrees_def fmul_def)

lemma degrees_plus_half_pi: "math_degrees (math_pi / 2) = 90"
  using degrees_half_pi by (simp add: math_degrees_def fmul_def)

section \<open>The error ellipse\<close>

lemma error_ellipse33:
  "error_ellipse [[vxx,vxy,a02],[a10,vyy,a12],[a20,a21,a22]] =
     bind_err (math_sqrt (fadd (fmul (fsub vxx vyy) (fsub vxx vyy)) (fmul 4 (fmul vxy vxy)))) (\<lambda>z.
     bind_err (math_sqrt (fmul 0.5 (fadd (fadd vxx vyy) z))) (\<lambda>a.
     bind_err (math_sqrt (fmul 0.5 (fsub (fadd vxx vyy) z))) (\<lambda>b.
       Inr (a, b, fsub 90 (math_degrees (fmul 0.5 (math_atan2 (fmul 2 vxy) (fsub vxx vyy))))))))"
  by (simp add: error_ellipse_def getitem_def bind_err_def Let_def)

lemmas fl_ops = fadd_def fsub_def fmul_def

lemma bind_err_Inr: "bind_err (Inr v) f = f v"
  by (simp add: bind_err_def)

lemma minor_radicand_negative_raises:
  assumes "minor_radicand vxx vxy vyy < 0"
  shows "error_ellipse [[vxx, vxy, a02], [a10, vyy, a12], [a20, a21, a22]]
         = Inl (ValueError ''math domain error'')"
  using assms unfolding error_ellipse33 minor_radicand_def computed_z_def
  by (simp add: bind_err_def math_sqrt_def)

lemma z_radicand_nonneg: "0 \<le> fadd (fmul d d) (fmul 4 (fmul v v))"
proof -
  have "0 \<le> fmul d d" "0 \<le> fmul v v" unfolding fmul_def by (intro fl_nonneg; simp)+
  then have "0 \<le> fmul 4 (fmul v v)" unfolding fmul_def[of 4] by (intro fl_nonneg) simp
  with \<open>0 \<le> fmul d d\<close> show ?thesis unfolding fadd_def by (intro fl_nonneg) simp
qed

lemma computed_z_nonneg: "0 \<le> computed_z vxx vxy vyy"
  unfolding computed_z_def by (intro fl_nonneg) (simp add: z_radicand_nonneg)

lemma minor_le_major:
  "minor_radicand vxx vxy vyy \<le> fmul 0.5 (fadd (fadd vxx vyy) (computed_z vxx vxy vyy))"
proof -
  have "fadd vxx vyy - computed_z vxx vxy vyy \<le> fadd vxx vyy + computed_z vxx vxy vyy"
    using computed_z_nonneg[of vxx vxy vyy] by simp
  then have "fsub (fadd vxx vyy) (computed_z vxx vxy vyy) \<le> fadd (fadd vxx vyy) (computed_z vxx vxy vyy)"
    unfolding fsub_def fadd_def[of "fl (vxx + vyy)"] fadd_def[of vxx vyy] by (rule fl_mono)
  then show ?thesis unfolding minor_radicand_def fmul_def by (intro fl_mono) simp
qed

lemma error_ellipse_cases:
  "error_ellipse [[vxx, vxy, a02], [a10, vyy, a12], [a20, a21, a22]] =
     (if minor_radicand vxx vxy vyy < 0 then Inl (ValueError ''math domain error'')
      else Inr (fl (sqrt (fmul 0.5 (fadd (fadd vxx vyy) (computed_z vxx vxy vyy)))),
                fl (sqrt (minor_radicand vxx vxy vyy)),
                fsub 90 (math_degrees (fmul 0.5 (math_atan2 (fmul 2 vxy) (fsub vxx vyy))))))"
proof (cases "minor_radicand vxx vxy vyy < 0")
  case True
  then show ?thesis using minor_radicand_negative_raises by simp
next
  case False
  with minor_le_major[of vxx vxy vyy]
  have "\<not> fmul 0.5 (fadd (fadd vxx vyy) (computed_z vxx vxy vyy)) < 0" by linarith
  with False z_radicand_nonneg[of "fsub vxx vyy" vxy] show ?thesis
    unfolding error_ellipse33 minor_radicand_def computed_z_def
    by (simp add: bind_err_def math_sqrt_def not_less)
qed

text \<open>
  C3, as the specification states it, fails: for the horizontal block diag(4, 1) the
  orientation is not 0.
\<close>

theorem error_ellipse_diag41_orientation_not_0:
  "error_ellipse [[4, 0, 0], [0, 1, 0], [0, 0, 1]] \<noteq> Inr (2, 1, 0)"
  by (simp add: error_ellipse33 bind_err_def math_sqrt_def math_atan2_def math_degrees_def
      atan2_def fl_ops fl_small fl_zero)

text \<open>
  C3, amended. For every 3x3 input with horizontal block diag(4, 1) (\<open>Vxx = 4\<close>,
  \<open>Vyy = 1\<close>, \<open>Vxy = 0\<close>) \<^verbatim>\<open>error_ellipse\<close> returns semi-major axis 2, semi-minor
  axis 1 and orientation 90 degrees.
\<close>

theorem error_ellipse_diag41:
  "error_ellipse [[4, 0, a02], [0, 1, a12], [a20, a21, a22]] = Inr (2, 1, 90)"
  by (simp add: error_ellipse33 bind_err_def math_sqrt_def math_atan2_def math_degrees_def
      atan2_def fl_ops fl_small fl_zero)

subsection \<open>The axes\<close>

lemma psd_block_intro:
  assumes a: "0 \<le> a" and c: "0 \<le> c" and d: "b\<^sup>2 \<le> a * c"
  shows "psd_block a b c"
  unfolding psd_block_def
proof (intro allI)
  fix x y :: real
  let ?q = "x * (a * x + b * y) + y * (b * x + c * y)"
  show "0 \<le> ?q"
  proof (cases "c = 0")
    case True
    with d have "b = 0" by simp
    with True have "?q = a * x\<^sup>2" by (simp add: power2_eq_square)
    then show ?thesis using a by simp
  next
    case False
    with c have cp: "0 < c" by simp
    have "c * ?q = (c * y + b * x)\<^sup>2 + (a * c - b\<^sup>2) * x\<^sup>2"
      by (simp add: algebra_simps power2_eq_square)
    moreover have "0 \<le> (c * y + b * x)\<^sup>2 + (a * c - b\<^sup>2) * x\<^sup>2"
      using d by simp
    ultimately have "0 \<le> c * ?q" by simp
    then show ?thesis using cp by (simp add: zero_le_mult_iff)
  qed
qed

lemma absorbed_diff: "fl (3 / 2 - 27021597764222976) = - 27021597764222976"
proof -
  have "fl (27021597764222976 - 3 / 2)
      = pow2 (54 - 52) * of_int (rhe ((27021597764222976 - 3 / 2) / pow2 (54 - 52)))"
    by (intro fl_pos_eval) (simp_all add: pow2_def)
  moreover have "rhe ((27021597764222976 - 3 / 2) / pow2 (54 - 52)) = 6755399441055744"
    by (intro rhe_unique) (simp_all add: pow2_def)
  ultimately have "fl (27021597764222976 - 3 / 2) = 27021597764222976"
    by (simp add: pow2_def)
  then show ?thesis using fl_minus[of "27021597764222976 - 3 / 2"] by simp
qed

lemma absorbed_sum: "fl (3 / 2 + 27021597764222976) = 27021597764222976"
proof -
  have "fl (3 / 2 + 27021597764222976)
      = pow2 (54 - 52) * of_int (rhe ((3 / 2 + 27021597764222976) / pow2 (54 - 52)))"
    by (intro fl_pos_eval) (simp_all add: pow2_def)
  moreover have "rhe ((3 / 2 + 27021597764222976) / pow2 (54 - 52)) = 6755399441055744"
    by (intro rhe_unique) (simp_all add: pow2_def)
  ultimately show ?thesis by (simp add: pow2_def)
qed

lemma squares_sum:
  "fl (730166745731460135262101046296576 + 162129586585337856) = 730166745731460279377289122152448"
proof -
  have "fl (730166745731460135262101046296576 + 162129586585337856)
      = pow2 (109 - 52)
        * of_int (rhe ((730166745731460135262101046296576 + 162129586585337856) / pow2 (109 - 52)))"
    by (intro fl_pos_eval) (simp_all add: pow2_def)
  moreover have "rhe ((730166745731460135262101046296576 + 162129586585337856) / pow2 (109 - 52))
      = 5066549580791809"
    by (intro rhe_unique) (simp_all add: pow2_def)
  ultimately show ?thesis by (simp add: pow2_def)
qed

lemma root_above_trace: "fl (sqrt 730166745731460279377289122152448) = 27021597764222980"
proof -
  let ?s = "sqrt 730166745731460279377289122152448"
  have lo: "27021597764222978 < ?s"
    by (rule real_less_rsqrt) (simp add: power2_eq_square)
  have hi: "?s < 27021597764222982"
    by (rule real_less_lsqrt) (simp_all add: power2_eq_square)
  have "fl ?s = pow2 (54 - 52) * of_int (rhe (?s / pow2 (54 - 52)))"
    using lo hi by (intro fl_pos_eval) (simp_all add: pow2_def)
  moreover have "rhe (?s / pow2 (54 - 52)) = 6755399441055745"
    using lo hi by (intro rhe_unique) (simp_all add: pow2_def field_simps)
  ultimately show ?thesis by (simp add: pow2_def)
qed

text \<open>
  C4, as the specification states it, fails: the block with \<open>Vxx = 1.5\<close>,
  \<open>Vxy = 201326592\<close>, \<open>Vyy = 27021597764222976\<close> is positive semi-definite (its determinant is 0),
  yet \<^verbatim>\<open>error_ellipse\<close> raises \<^verbatim>\<open>ValueError\<close>. \<open>Vxx\<close> is lost in \<open>Vxx + Vyy\<close> and in
  \<open>Vxx - Vyy\<close>, both squares are exact, and the computed \<^verbatim>\<open>z\<close> is \<open>Vyy + 4\<close>, above
  the computed \<open>Vxx + Vyy = Vyy\<close>.
\<close>

theorem error_ellipse_psd_block_raises:
  "psd_block (3 / 2) 201326592 27021597764222976 \<and>
   error_ellipse [[3 / 2, 201326592, 0], [201326592, 27021597764222976, 0], [0, 0, 1]]
     = Inl (ValueError ''math domain error'')"
proof -
  have psd: "psd_block (3 / 2) 201326592 27021597764222976"
    by (rule psd_block_intro) simp_all
  have d: "fsub (3 / 2) 27021597764222976 = - 27021597764222976"
    by (simp only: fsub_def absorbed_diff)
  have dd: "fmul (- 27021597764222976) (- 27021597764222976) = 730166745731460135262101046296576"
    using fl_representable[of 9 106] by (simp add: fmul_def pow2_def)
  have bb: "fmul 201326592 201326592 = 40532396646334464"
    using fl_representable[of 9 52] by (simp add: fmul_def pow2_def)
  have b4: "fmul 4 40532396646334464 = 162129586585337856"
    using fl_representable[of 9 54] by (simp add: fmul_def pow2_def)
  have sm: "fadd 730166745731460135262101046296576 162129586585337856
      = 730166745731460279377289122152448"
    by (simp only: fadd_def squares_sum)
  have z: "computed_z (3 / 2) 201326592 27021597764222976 = 27021597764222980"
    by (simp only: computed_z_def d dd bb b4 sm root_above_trace)
  have s: "fadd (3 / 2) 27021597764222976 = 27021597764222976"
    by (simp only: fadd_def absorbed_sum)
  have smz: "fsub 27021597764222976 27021597764222980 = - 4"
    using fl_int[of "- 4"] by (simp add: fsub_def)
  have rb: "fmul 0.5 (- 4) = - 2"
    using fl_int[of "- 2"] by (simp add: fmul_def)
  have "minor_radicand (3 / 2) 201326592 27021597764222976 = - 2"
    by (simp only: minor_radicand_def z s smz rb)
  then have "minor_radicand (3 / 2) 201326592 27021597764222976 < 0" by simp
  then have "error_ellipse [[3 / 2, 201326592, 0], [201326592, 27021597764222976, 0], [0, 0, 1]]
     = Inl (ValueError ''math domain error'')"
    by (rule minor_radicand_negative_raises)
  with psd show ?thesis by simp
qed

text \<open>
  C4, amended. For every 3x3 input on which \<^verbatim>\<open>error_ellipse\<close> returns, whether its
  horizontal block is positive semi-definite or not, the axes satisfy \<open>a \<ge> b \<ge> 0\<close>.
\<close>

theorem error_ellipse_axes_ordered:
  assumes "error_ellipse [[vxx, vxy, a02], [a10, vyy, a12], [a20, a21, a22]] = Inr (a, b, orientation)"
  shows "b \<le> a \<and> 0 \<le> b"
proof -
  let ?ra = "fmul 0.5 (fadd (fadd vxx vyy) (computed_z vxx vxy vyy))"
  let ?rb = "minor_radicand vxx vxy vyy"
  from assms have nn: "\<not> ?rb < 0" and a: "a = fl (sqrt ?ra)" and b: "b = fl (sqrt ?rb)"
    unfolding error_ellipse_cases by (auto split: if_splits)
  have "sqrt ?rb \<le> sqrt ?ra" using minor_le_major[of vxx vxy vyy] by simp
  then have "b \<le> a" unfolding a b by (rule fl_mono)
  moreover have "0 \<le> b" unfolding b by (intro fl_nonneg) (use nn in simp)
  ultimately show ?thesis by simp
qed

theorem error_ellipse_axes_ordered_witness:
  "error_ellipse [[4, 0, 0], [0, 1, 0], [0, 0, 1]] = Inr (2, 1, 90) \<and> (1::real) \<le> 2 \<and> (0::real) \<le> 1"
proof -
  have h: "error_ellipse [[4, 0, 0], [0, 1, 0], [0, 0, 1]] = Inr (2, 1, 90)"
    by (simp add: error_ellipse33 bind_err_def math_sqrt_def math_atan2_def math_degrees_def
      atan2_def fl_ops fl_small fl_zero)
  show ?thesis using h error_ellipse_axes_ordered [OF h] by simp
qed

subsection \<open>The domain error\<close>






subsection \<open>The orientation angle\<close>

lemma nine_plus_tiny_rounds_to_nine: "fl (9 + 1 / 2 ^ 118) = 9"
proof -
  have "fl (9 + 1 / 2 ^ 118) = pow2 (3 - 52) * of_int (rhe ((9 + 1 / 2 ^ 118) / pow2 (3 - 52)))"
    by (intro fl_pos_eval) (simp_all add: pow2_def)
  moreover have "rhe ((9 + 1 / 2 ^ 118) / pow2 (3 - 52)) = 5066549580791808"
    by (intro rhe_unique) (simp_all add: pow2_def)
  ultimately show ?thesis by (simp add: pow2_def)
qed

text \<open>
  C10, as stated, fails: with \<open>Vxx = 1\<close>, \<open>Vyy = 4\<close> and \<open>Vxy = -2\<^sup>-\<^sup>6\<^sup>0\<close> the exact angle
  \<open>atan2 (2 Vxy) (Vxx - Vyy)\<close> is above \<open>-\<pi>\<close> but rounds to \<^verbatim>\<open>-math.pi\<close>, and the
  orientation is exactly 180.
\<close>

theorem error_ellipse_orientation_180:
  "error_ellipse [[1, - (1 / 2 ^ 60), 0], [- (1 / 2 ^ 60), 4, 0], [0, 0, 1]] = Inr (2, 1, 180)"
proof -
  have d: "fsub 1 4 = - 3" by (simp add: fsub_def fl_small)
  have dd: "fmul (- 3) (- 3) = 9" by (simp add: fmul_def fl_small)
  have bb: "fmul (- (1 / 2 ^ 60)) (- (1 / 2 ^ 60)) = 1 / 2 ^ 120"
    using fl_pow2[of "- 120"] by (simp add: fmul_def pow2_def)
  have b4: "fmul 4 (1 / 2 ^ 120) = 1 / 2 ^ 118"
    using fl_pow2[of "- 118"] by (simp add: fmul_def pow2_def)
  have sm: "fadd 9 (1 / 2 ^ 118) = 9" by (simp only: fadd_def nine_plus_tiny_rounds_to_nine)
  have z: "math_sqrt 9 = Inr 3"
    using real_sqrt_abs[of 3] by (simp add: math_sqrt_def fl_small)
  have s: "fadd 1 4 = 5" by (simp add: fadd_def fl_small)
  have sz: "fadd 5 3 = 8" by (simp add: fadd_def fl_small)
  have ra: "fmul 0.5 8 = 4" by (simp add: fmul_def fl_small)
  have a: "math_sqrt 4 = Inr 2"
    using real_sqrt_abs[of 2] by (simp add: math_sqrt_def fl_small)
  have smz: "fsub 5 3 = 2" by (simp add: fsub_def fl_small)
  have rb: "fmul 0.5 2 = 1" by (simp add: fmul_def fl_small)
  have b: "math_sqrt 1 = Inr 1" by (simp add: math_sqrt_def fl_small)
  have y: "fmul 2 (- (1 / 2 ^ 60)) = - (1 / 2 ^ 59)"
    using fl_pow2[of "- 59"] fl_minus[of "pow2 (- 59)"] by (simp add: fmul_def pow2_def)
  have h: "fmul 0.5 (- math_pi) = - (math_pi / 2)"
    using half_pi_exact fl_minus[of "math_pi / 2"] by (simp add: fmul_def)
  have o: "fsub 90 (- 90) = 180" by (simp add: fsub_def fl_small)
  show ?thesis
    by (simp only: error_ellipse33 d dd bb b4 sm z s sz ra a smz rb b y atan2_near_minus_pi h
        degrees_minus_half_pi o bind_err_Inr)
qed

text \<open>
  C10, amended. Whenever \<^verbatim>\<open>error_ellipse\<close> returns, on a 3x3 input or any other, the
  orientation lies in the closed interval from 0 to 180 degrees, both ends included.
\<close>

theorem error_ellipse_orientation_range:
  assumes "error_ellipse vcv = Inr (a, b, orientation)"
  shows "0 \<le> orientation \<and> orientation \<le> 180"
proof -
  from assms obtain y x where "orientation = fsub 90 (math_degrees (fmul 0.5 (math_atan2 y x)))"
    by (auto simp: error_ellipse_def bind_err_def Let_def split: sum.splits)
  then show ?thesis using orientation_closed_range[of y x] by simp
qed

theorem error_ellipse_orientation_range_witness:
  "error_ellipse [[1, 0, 0], [0, 4, 0], [0, 0, 1]] = Inr (2, 1, 0)
   \<and> (0::real) \<le> 0 \<and> (0::real) \<le> 180"
proof -
  have d: "fsub 1 4 = - 3" by (simp add: fsub_def fl_small)
  have dd: "fmul (- 3) (- 3) = 9" by (simp add: fmul_def fl_small)
  have bb: "fmul 0 0 = 0" by (simp add: fmul_def fl_zero)
  have b4: "fmul 4 0 = 0" by (simp add: fmul_def fl_zero)
  have sm: "fadd 9 0 = 9" by (simp add: fadd_def fl_small)
  have z: "math_sqrt 9 = Inr 3"
    using real_sqrt_abs[of 3] by (simp add: math_sqrt_def fl_small)
  have s: "fadd 1 4 = 5" by (simp add: fadd_def fl_small)
  have sz: "fadd 5 3 = 8" by (simp add: fadd_def fl_small)
  have ra: "fmul 0.5 8 = 4" by (simp add: fmul_def fl_small)
  have a: "math_sqrt 4 = Inr 2"
    using real_sqrt_abs[of 2] by (simp add: math_sqrt_def fl_small)
  have smz: "fsub 5 3 = 2" by (simp add: fsub_def fl_small)
  have rb: "fmul 0.5 2 = 1" by (simp add: fmul_def fl_small)
  have b: "math_sqrt 1 = Inr 1" by (simp add: math_sqrt_def fl_small)
  have y: "fmul 2 0 = 0" by (simp add: fmul_def fl_zero)
  have at: "math_atan2 0 (- 3) = math_pi" by (simp add: math_atan2_def atan2_def math_pi_def)
  have h: "fmul 0.5 math_pi = math_pi / 2"
    using half_pi_exact by (simp add: fmul_def)
  have o: "fsub 90 90 = 0" by (simp add: fsub_def fl_zero)
  have e: "error_ellipse [[1, 0, 0], [0, 4, 0], [0, 0, 1]] = Inr (2, 1, 0)"
    by (simp only: error_ellipse33 d dd bb b4 sm z s sz ra a smz rb b y at h
        degrees_plus_half_pi o bind_err_Inr)
  show ?thesis using e error_ellipse_orientation_range [OF e] by simp
qed

section \<open>The circularised radius\<close>



text \<open>
  C7, as the specification states it, fails: with \<^verbatim>\<open>numpy.float64\<close> arguments \<open>a = 0\<close>
  and \<open>b = 1\<close>, \<^verbatim>\<open>circ_hz_pu\<close> raises nothing and returns NaN.
\<close>

theorem circ_hz_pu_numpy_zero_returns_nan:
  "circ_hz_pu (Numpy, Finite 0) (Numpy, Finite 1) = Inr (Numpy, NaN)"
  by (simp add: circ_hz_pu_def py_truediv_def py_add_def py_mul_def py_pow_def bind_err_def Let_def)

text \<open>
  C7, amended. With \<open>a = 0\<close> and both arguments built-in floats, \<^verbatim>\<open>circ_hz_pu\<close> raises
  \<^verbatim>\<open>ZeroDivisionError\<close> and returns no value; with \<open>a = 0\<close>, a finite \<open>b\<close> and at least
  one \<^verbatim>\<open>numpy.float64\<close> argument it raises nothing and returns NaN.
\<close>

theorem circ_hz_pu_zero_division:
  "circ_hz_pu (Builtin, Finite 0) (Builtin, b) = Inl (ZeroDivisionError ''float division by zero'')
   \<and> (ka = Numpy \<or> kb = Numpy \<longrightarrow>
        circ_hz_pu (ka, Finite 0) (kb, Finite v) = Inr (Numpy, NaN))"
proof -
  have 1: "circ_hz_pu (Builtin, Finite 0) (Builtin, b) = Inl (ZeroDivisionError ''float division by zero'')"
    by (simp add: circ_hz_pu_def py_truediv_def bind_err_def Let_def)
  have 2: "circ_hz_pu (ka, Finite 0) (kb, Finite v) = Inr (Numpy, NaN)" if "ka = Numpy \<or> kb = Numpy"
  proof -
    have j: "join_class kb ka = Numpy" using that by (cases ka; cases kb) simp_all
    have c: "py_truediv (kb, Finite v) (ka, Finite 0)
        = Inr (Numpy, if v = 0 then NaN else if 0 < v then PosInf else NegInf)"
      using that j by (auto simp: py_truediv_def)
    show ?thesis
      unfolding circ_hz_pu_def Let_def c
      by (cases ka) (simp_all add: py_add_def py_mul_def py_pow_def bind_err_def)
  qed
  from 1 2 show ?thesis by blast
qed

theorem circ_hz_pu_zero_division_witness:
  "circ_hz_pu (Builtin, Finite 0) (Builtin, Finite 1) = Inl (ZeroDivisionError ''float division by zero'')
   \<and> circ_hz_pu (Builtin, Finite 0) (Numpy, Finite 1) = Inr (Numpy, NaN)"
  using circ_hz_pu_zero_division [of "Finite 1" Builtin Numpy 1] by simp

section \<open>The coverage factor\<close>

lemma length_ttable_p95: "length ttable_p95 = 120" by (simp add: ttable_p95_def)

text \<open>
  C8. For every integer \<open>d\<close>, \<^verbatim>\<open>k_val95(d)\<close> is the table entry at index \<open>d - 1\<close> when
  \<open>1 \<le> d \<le> 120\<close>, the first entry 12.7062 when \<open>d < 1\<close>, and 1.96 when \<open>d > 120\<close>;
  \<^verbatim>\<open>k_val95(1) = 12.7062\<close>, \<^verbatim>\<open>k_val95(0) = 12.7062\<close>, \<^verbatim>\<open>k_val95(120) = 1.97993\<close>
  and \<^verbatim>\<open>k_val95(121) = 1.96\<close>.
\<close>

theorem k_val95_table:
  "(1 \<le> d \<and> d \<le> 120 \<longrightarrow> k_val95 (PyInt d) = Inr (ttable_p95 ! nat (d - 1)))
   \<and> (d < 1 \<longrightarrow> k_val95 (PyInt d) = Inr 12.7062)
   \<and> (120 < d \<longrightarrow> k_val95 (PyInt d) = Inr 1.96)
   \<and> k_val95 (PyInt 1) = Inr 12.7062
   \<and> k_val95 (PyInt 0) = Inr 12.7062
   \<and> k_val95 (PyInt 120) = Inr 1.97993
   \<and> k_val95 (PyInt 121) = Inr 1.96"
proof -
  have h0: "list_getitem ttable_p95 0 = Inr 12.7062"
    by (simp add: list_getitem_def length_ttable_p95) (simp add: ttable_p95_def)
  have h119: "list_getitem ttable_p95 119 = Inr 1.97993"
    by (simp add: list_getitem_def length_ttable_p95) (simp add: ttable_p95_def)
  have mid: "1 \<le> d \<and> d \<le> 120 \<longrightarrow> k_val95 (PyInt d) = Inr (ttable_p95 ! nat (d - 1))"
    by (simp add: k_val95_def list_getitem_def length_ttable_p95)
  have lo: "d < 1 \<longrightarrow> k_val95 (PyInt d) = Inr 12.7062"
    by (simp add: k_val95_def h0)
  have hi: "120 < d \<longrightarrow> k_val95 (PyInt d) = Inr 1.96"
    by (simp add: k_val95_def)
  have "k_val95 (PyInt 1) = Inr 12.7062" "k_val95 (PyInt 0) = Inr 12.7062"
    "k_val95 (PyInt 120) = Inr 1.97993" "k_val95 (PyInt 121) = Inr 1.96"
    by (simp_all add: k_val95_def h0 h119)
  with mid lo hi show ?thesis by blast
qed

theorem k_val95_table_witness: "k_val95 (PyInt 5) = Inr 2.57058 \<and> k_val95 (PyInt (-3)) = Inr 12.7062 \<and> k_val95 (PyInt 200) = Inr 1.96"
  using k_val95_table [of 5] k_val95_table [of "- 3"] k_val95_table [of 200] by (simp add: ttable_p95_def)

text \<open>
  C9. Every float, the integral 2.0 among them, and every object of a class other than
  \<^verbatim>\<open>int\<close> and \<^verbatim>\<open>bool\<close> makes \<^verbatim>\<open>k_val95\<close> raise \<^verbatim>\<open>TypeError\<close>.
\<close>

theorem k_val95_rejects_non_int: "k_val95 (PyFloat x) = Inl (TypeError ''Degrees of Freedom must be Int'')
  \<and> k_val95 (PyFloat 2) = Inl (TypeError ''Degrees of Freedom must be Int'')
  \<and> k_val95 (PyObject c) = Inl (TypeError ''Degrees of Freedom must be Int'')"
  by (simp add: k_val95_def)

end
